theory Spec2Isabelle
  imports Main
begin

section \<open>JavaScript errors\<close>

text \<open>
  A thrown value is an error object: its constructor and its message.  \<open>Error\<close> is
  what the wrappers throw themselves (\<^verbatim>\<open>new Error(msg)\<close>), \<open>SyntaxError\<close> is what
  \<^verbatim>\<open>response.json()\<close> rejects with on a body that is not JSON, \<open>TypeError\<close> is what
  \<^verbatim>\<open>fetch\<close> rejects with when the request cannot complete, and what
  \<^verbatim>\<open>Object.entries(undefined)\<close> throws.
\<close>

datatype js_error = Error string | SyntaxError string | TypeError string


section \<open>The session context (auth-context, \<^verbatim>\<open>src/unnamed/part_000\<close>)\<close>

subsection \<open>Data\<close>

text \<open>
  \<^verbatim>\<open>interface User { id: string; email: string }\<close> and
  \<^verbatim>\<open>interface LoginResponse { user_id: string; access_token: string }\<close>.
  The field \<^verbatim>\<open>id\<close> is written \<open>id'\<close> (\<open>id\<close> is the identity function of HOL).
\<close>

record user =
  id' :: string
  email :: string

record LoginResponse =
  user_id :: string
  access_token :: string

text \<open>
  The module \<^verbatim>\<open>./auth\<close> as the session context sees it
  (\<^verbatim>\<open>import * as auth from './auth'\<close>): three asynchronous functions at their declared
  types.  A rejected promise is \<open>Inl\<close> of the thrown error, a resolved one \<open>Inr\<close> of
  the value.  They are the three wrappers of the auth client below, applied to the
  network; the session context is parametric in this record, so what they answer (any
  backend, any network) is arbitrary.  An operation calls each of them at most once, so
  nothing is lost by taking the answer as a function of the arguments.
\<close>

record auth_client =
  auth_login :: "string \<Rightarrow> string \<Rightarrow> js_error + LoginResponse"
  auth_getCurrentUser :: "string \<Rightarrow> js_error + user"
  auth_signup :: "string \<Rightarrow> string \<Rightarrow> js_error + string"

text \<open>
  The three \<^verbatim>\<open>useState\<close> cells of \<^verbatim>\<open>AuthProvider\<close> and the one
  \<^verbatim>\<open>localStorage\<close> entry under the key \<^verbatim>\<open>'token'\<close> (\<open>None\<close>: no entry;
  \<^verbatim>\<open>null\<close> for the cells).
\<close>

record session =
  isAuthenticated :: bool
  token :: "string option"
  user :: "user option"
  localStorage :: "string option"

text \<open>
  What the code does to that state, one event per statement: the three setters, the
  two \<^verbatim>\<open>localStorage\<close> calls, and the moment
  \<^verbatim>\<open>await auth.getCurrentUser(accessToken)\<close> resolves (which changes no state, and is
  recorded so that a trace tells which tokens the backend has accepted).  The setters
  and the \<^verbatim>\<open>localStorage\<close> calls themselves are taken not to throw.
\<close>

datatype event =
    SetToken "string option"
  | SetUser "user option"
  | SetIsAuthenticated bool
  | SetItem string
  | RemoveItem
  | GotCurrentUser string

fun apply_event :: "event \<Rightarrow> session \<Rightarrow> session" where
  "apply_event (SetToken t) s = s\<lparr>token := t\<rparr>"
| "apply_event (SetUser u) s = s\<lparr>user := u\<rparr>"
| "apply_event (SetIsAuthenticated b) s = s\<lparr>isAuthenticated := b\<rparr>"
| "apply_event (SetItem t) s = s\<lparr>localStorage := Some t\<rparr>"
| "apply_event RemoveItem s = s\<lparr>localStorage := None\<rparr>"
| "apply_event (GotCurrentUser t) s = s"

fun exec :: "event list \<Rightarrow> session \<Rightarrow> session" where
  "exec [] s = s"
| "exec (e # es) s = exec es (apply_event e s)"

subsection \<open>The operations\<close>

text \<open>
  Each function of the source is the list of events it performs, in order, together
  with how its promise settles.

  \<^verbatim>\<open>
  const handleLogout = () => {
    setToken(null); setUser(null); setIsAuthenticated(false);
    localStorage.removeItem('token');
  };\<close>
\<close>

definition handleLogout :: "event list" where
  "handleLogout = [SetToken None, SetUser None, SetIsAuthenticated False, RemoveItem]"

text \<open>
  \<^verbatim>\<open>
  const fetchUser = async (accessToken: string) => {
    try {
      const userData = await auth.getCurrentUser(accessToken);
      setUser({ id: userData.id, email: userData.email });
    } catch (error) {
      console.error('Failed to fetch user:', error);
      handleLogout();
      throw error;
    }
  };\<close>
\<close>

definition fetchUser :: "auth_client \<Rightarrow> string \<Rightarrow> event list \<times> (js_error + unit)" where
  "fetchUser auth accessToken =
     (case auth_getCurrentUser auth accessToken of
        Inr userData \<Rightarrow>
          ([GotCurrentUser accessToken,
            SetUser (Some \<lparr>id' = id' userData, email = email userData\<rparr>)], Inr ())
      | Inl error \<Rightarrow> (handleLogout, Inl error))"

text \<open>
  \<^verbatim>\<open>
  const handleLogin = async (email: string, password: string) => {
    try {
      const { access_token, user_id } = await auth.login(email, password);
      await fetchUser(access_token);
      setToken(access_token);
      localStorage.setItem('token', access_token);
      setIsAuthenticated(true);
    } catch (error) {
      handleLogout(); // Clear any partial state
      throw error;
    }
  };\<close>
\<close>

definition handleLogin ::
  "auth_client \<Rightarrow> string \<Rightarrow> string \<Rightarrow> event list \<times> (js_error + unit)" where
  "handleLogin auth email_in password =
     (case auth_login auth email_in password of
        Inl error \<Rightarrow> (handleLogout, Inl error)
      | Inr r \<Rightarrow>
          (case fetchUser auth (access_token r) of
             (evs, Inl error) \<Rightarrow> (evs @ handleLogout, Inl error)
           | (evs, Inr _) \<Rightarrow>
               (evs @ [SetToken (Some (access_token r)),
                       SetItem (access_token r),
                       SetIsAuthenticated True], Inr ())))"

text \<open>
  \<^verbatim>\<open>
  const handleSignup = async (email: string, password: string) => {
    try {
      await auth.signup(email, password);
      await handleLogin(email, password);
    } catch (error) { throw error; }
  };\<close>
\<close>

definition handleSignup ::
  "auth_client \<Rightarrow> string \<Rightarrow> string \<Rightarrow> event list \<times> (js_error + unit)" where
  "handleSignup auth email_in password =
     (case auth_signup auth email_in password of
        Inl error \<Rightarrow> ([], Inl error)
      | Inr _ \<Rightarrow> handleLogin auth email_in password)"

text \<open>
  The effect run once on mount.  \<^verbatim>\<open>if (savedToken)\<close> is JavaScript truthiness:
  \<^verbatim>\<open>null\<close> (no entry) and the empty string both skip the branch.  A rejection of
  \<^verbatim>\<open>fetchUser\<close> runs the \<^verbatim>\<open>.catch\<close> handler, a second \<^verbatim>\<open>handleLogout()\<close>.
  \<^verbatim>\<open>
  useEffect(() => {
    const savedToken = localStorage.getItem('token');
    if (savedToken) {
      setToken(savedToken);
      setIsAuthenticated(true);
      fetchUser(savedToken).catch(() => { handleLogout(); });
    }
  }, []);\<close>
\<close>

definition startup :: "auth_client \<Rightarrow> session \<Rightarrow> event list" where
  "startup auth s =
     (case localStorage s of
        None \<Rightarrow> []
      | Some savedToken \<Rightarrow>
          if savedToken = [] then []
          else [SetToken (Some savedToken), SetIsAuthenticated True] @
               (case fetchUser auth savedToken of
                  (evs, Inl _) \<Rightarrow> evs @ handleLogout
                | (evs, Inr _) \<Rightarrow> evs))"

text \<open>
  The state \<^verbatim>\<open>AuthProvider\<close> is created with: the initial values of the three
  \<^verbatim>\<open>useState\<close> cells, and whatever the browser kept under the key.
\<close>

definition mount :: "string option \<Rightarrow> session" where
  "mount stored =
     \<lparr>isAuthenticated = False, token = None, user = None, localStorage = stored\<rparr>"

definition Unauthenticated :: "session \<Rightarrow> bool" where
  "Unauthenticated s \<longleftrightarrow>
     \<not> isAuthenticated s \<and> token s = None \<and> user s = None \<and> localStorage s = None"

subsection \<open>Traces\<close>

text \<open>
  A configuration is the session state together with the events performed so far in
  this lifecycle.  \<open>run\<close> performs a list of events; \<open>configs\<close> lists every
  configuration passed on the way, the first and the last included.  (React may render
  after any setter call made from asynchronous code, so every one of them counts.)
\<close>

type_synonym config = "session \<times> event list"

fun run :: "event list \<Rightarrow> config \<Rightarrow> config" where
  "run evs (s, h) = (exec evs s, h @ evs)"

fun configs :: "event list \<Rightarrow> config \<Rightarrow> config list" where
  "configs [] c = [c]"
| "configs (e # es) (s, h) = (s, h) # configs es (apply_event e s, h @ [e])"

text \<open>A token is verified once \<^verbatim>\<open>getCurrentUser\<close> has resolved for it.\<close>

definition verified :: "event list \<Rightarrow> string \<Rightarrow> bool" where
  "verified h t \<longleftrightarrow> GotCurrentUser t \<in> set h"

text \<open>
  What the context value offers the view: \<^verbatim>\<open>login\<close>, \<^verbatim>\<open>signup\<close>,
  \<^verbatim>\<open>logout\<close>.  A lifecycle is the mount effect followed by any number of calls, each
  against whatever the auth client answers at that time.
\<close>

datatype operation = Login string string | Signup string string | Logout

fun op_events :: "auth_client \<times> operation \<Rightarrow> event list" where
  "op_events (auth, Login e p) = fst (handleLogin auth e p)"
| "op_events (auth, Signup e p) = fst (handleSignup auth e p)"
| "op_events (auth, Logout) = handleLogout"

definition calls_events :: "(auth_client \<times> operation) list \<Rightarrow> event list" where
  "calls_events calls = concat (map op_events calls)"

definition hydrated :: "auth_client \<Rightarrow> string option \<Rightarrow> config" where
  "hydrated auth stored = run (startup auth (mount stored)) (mount stored, [])"

text \<open>
  The invariant of the data model, on a configuration: authenticated if and only if
  there is a token and it has been verified.
\<close>

definition session_invariant :: "config \<Rightarrow> bool" where
  "session_invariant c \<longleftrightarrow>
     (isAuthenticated (fst c) \<longleftrightarrow> (\<exists>t. token (fst c) = Some t \<and> verified (snd c) t))"

text \<open>Its safety half: never authenticated while holding an unverified token.\<close>

definition no_unverified_auth :: "config \<Rightarrow> bool" where
  "no_unverified_auth c \<longleftrightarrow>
     (\<forall>t. isAuthenticated (fst c) \<and> token (fst c) = Some t \<longrightarrow> verified (snd c) t)"

text \<open>
  What holds whenever no operation is under way: the flag is set exactly when a token
  is held, and a token that is held has been verified.
\<close>

definition settled :: "config \<Rightarrow> bool" where
  "settled c \<longleftrightarrow>
     (isAuthenticated (fst c) \<longleftrightarrow> token (fst c) \<noteq> None) \<and>
     (\<forall>t. token (fst c) = Some t \<longrightarrow> verified (snd c) t)"

text \<open>The events that touch \<^verbatim>\<open>localStorage\<close>, and those that commit session data.\<close>

fun is_storage_event :: "event \<Rightarrow> bool" where
  "is_storage_event (SetItem _) = True"
| "is_storage_event RemoveItem = True"
| "is_storage_event _ = False"

definition storage_events :: "event list \<Rightarrow> event list" where
  "storage_events evs = filter is_storage_event evs"

fun commits :: "event \<Rightarrow> bool" where
  "commits (SetToken (Some _)) = True"
| "commits (SetUser (Some _)) = True"
| "commits (SetIsAuthenticated True) = True"
| "commits (SetItem _) = True"
| "commits _ = False"

text \<open>Auth clients for concrete runs.\<close>

definition accepting :: auth_client where
  "accepting =
     \<lparr>auth_login = (\<lambda>e p. Inr \<lparr>user_id = ''u1'', access_token = ''tok''\<rparr>),
      auth_getCurrentUser = (\<lambda>t. Inr \<lparr>id' = ''u1'', email = ''a@b.c''\<rparr>),
      auth_signup = (\<lambda>e p. Inr ''created'')\<rparr>"

definition rejecting :: auth_client where
  "rejecting =
     \<lparr>auth_login = (\<lambda>e p. Inl (Error ''Invalid credentials'')),
      auth_getCurrentUser = (\<lambda>t. Inl (Error ''Invalid token'')),
      auth_signup = (\<lambda>e p. Inl (Error ''Email taken''))\<rparr>"

definition bad_credentials :: auth_client where
  "bad_credentials = accepting\<lparr>auth_login := (\<lambda>e p. Inl (Error ''Invalid credentials''))\<rparr>"

definition expired :: auth_client where
  "expired = accepting\<lparr>auth_getCurrentUser := (\<lambda>t. Inl (Error ''Invalid token''))\<rparr>"

text \<open>
  A backend with one account: it logs in that email and password only, and accepts that
  token only.  And a session that is under way, for runs that do not start from nothing.
\<close>

definition registered :: auth_client where
  "registered =
     \<lparr>auth_login = (\<lambda>e p. if e = ''a@b.c'' \<and> p = ''pw''
                          then Inr \<lparr>user_id = ''u1'', access_token = ''tok''\<rparr>
                          else Inl (Error ''Invalid credentials'')),
      auth_getCurrentUser = (\<lambda>t. if t = ''tok'' then Inr \<lparr>id' = ''u1'', email = ''a@b.c''\<rparr>
                                else Inl (Error ''Invalid token'')),
      auth_signup = (\<lambda>e p. Inr ''created'')\<rparr>"

definition earlier_session :: session where
  "earlier_session =
     \<lparr>isAuthenticated = True, token = Some ''old'',
      user = Some \<lparr>id' = ''u0'', email = ''o@b.c''\<rparr>, localStorage = Some ''old''\<rparr>"

section \<open>The API wrappers\<close>

subsection \<open>JSON values\<close>

text \<open>
  What \<^verbatim>\<open>await response.json()\<close> gives when the body parses: any JSON value.  A
  number is kept as the text JavaScript writes it with (\<^verbatim>\<open>0\<close> for zero, also for
  negative zero), which is all that \<^verbatim>\<open>||\<close> and \<^verbatim>\<open>new Error\<close> ask of it.  An
  object is the list of its properties, each key once.
\<close>

datatype json =
    JNull
  | JBool bool
  | JNum string
  | JStr string
  | JArr "json list"
  | JObj "(string \<times> json) list"

text \<open>
  \<^verbatim>\<open>data.detail\<close>.  Reading a property of \<^verbatim>\<open>null\<close> throws a TypeError (its
  wording is the engine's).  An object gives the property's value, or
  \<^verbatim>\<open>undefined\<close> (\<open>None\<close>) when it has none of that name; booleans, numbers, strings
  and arrays have no property of the names read here.
\<close>

fun get_property :: "json \<Rightarrow> string \<Rightarrow> js_error + json option" where
  "get_property JNull name = Inl (TypeError ''Cannot read properties of null'')"
| "get_property (JObj props) name = Inr (map_of props name)"
| "get_property _ name = Inr None"

text \<open>
  Truthiness: \<^verbatim>\<open>undefined\<close>, \<^verbatim>\<open>null\<close>, \<^verbatim>\<open>false\<close>, zero and the empty
  string are falsy, every other value is truthy (arrays and objects too, even empty).
  \<^verbatim>\<open>a || b\<close> is \<^verbatim>\<open>a\<close> when \<^verbatim>\<open>a\<close> is truthy, else \<^verbatim>\<open>b\<close>.
\<close>

fun truthy :: "json option \<Rightarrow> bool" where
  "truthy None = False"
| "truthy (Some JNull) = False"
| "truthy (Some (JBool b)) = b"
| "truthy (Some (JNum n)) = (n \<noteq> ''0'')"
| "truthy (Some (JStr s)) = (s \<noteq> [])"
| "truthy (Some (JArr _)) = True"
| "truthy (Some (JObj _)) = True"

definition js_or :: "json option \<Rightarrow> json \<Rightarrow> json" where
  "js_or a b = (case a of Some v \<Rightarrow> if truthy a then v else b | None \<Rightarrow> b)"

text \<open>
  \<^verbatim>\<open>new Error(v)\<close> takes as message the string conversion of \<^verbatim>\<open>v\<close>: a string
  is itself, an object is \<^verbatim>\<open>[object Object]\<close>, an array is its elements converted
  and joined with commas, \<^verbatim>\<open>null\<close> elements giving the empty string.
\<close>

fun ToString :: "json \<Rightarrow> string"
  and element :: "json \<Rightarrow> string"
  and joined :: "json list \<Rightarrow> string" where
  "ToString JNull = ''null''"
| "ToString (JBool b) = (if b then ''true'' else ''false'')"
| "ToString (JNum n) = n"
| "ToString (JStr s) = s"
| "ToString (JArr xs) = joined xs"
| "ToString (JObj props) = ''[object Object]''"
| "element JNull = []"
| "element (JBool b) = ToString (JBool b)"
| "element (JNum n) = ToString (JNum n)"
| "element (JStr s) = ToString (JStr s)"
| "element (JArr xs) = ToString (JArr xs)"
| "element (JObj props) = ToString (JObj props)"
| "joined [] = []"
| "joined [x] = element x"
| "joined (x # y # ys) = element x @ '','' @ joined (y # ys)"

subsection \<open>Requests and responses\<close>

text \<open>
  What \<^verbatim>\<open>fetch\<close> is called with: one constructor per endpoint, carrying the values
  the request is built from (credentials in the JSON body, the token in the
  \<^verbatim>\<open>Authorization: Bearer\<close> header, the file in the form data, the query in the URL).
\<close>

type_synonym File = string

datatype request =
    POST_auth_login string string
  | GET_auth_me string
  | POST_auth_signup string string
  | POST_documents_process File string
  | GET_documents string
  | GET_documents_search string string
  | GET_documents_categorize string

text \<open>
  A response: the flag \<^verbatim>\<open>response.ok\<close>, and how \<^verbatim>\<open>response.json()\<close>
  settles (\<open>Inl\<close>: the body does not parse and the promise rejects with the parser's
  error).  \<^verbatim>\<open>fetch\<close> itself is a function from requests to settled promises of
  responses (\<open>Inl\<close>: the request could not complete).
\<close>

record response =
  ok :: bool
  json :: "js_error + json"

type_synonym fetch = "request \<Rightarrow> js_error + response"

subsection \<open>The auth client (\<^verbatim>\<open>src/unnamed/part_002\<close>)\<close>

text \<open>
  \<^verbatim>\<open>
  try {
    const response = await fetch(`${API_URL}/auth/login`, {...});
    const data = await response.json();
    if (!response.ok) { throw new Error(data.detail || 'Login failed'); }
    return data;
  } catch (error) { console.error('Login error:', error); throw error; }\<close>
  The body is parsed before \<^verbatim>\<open>response.ok\<close> is looked at; the \<^verbatim>\<open>catch\<close> logs and
  throws the same error again.
\<close>

definition login :: "fetch \<Rightarrow> string \<Rightarrow> string \<Rightarrow> js_error + json" where
  "login fetch email' password =
     (case fetch (POST_auth_login email' password) of
        Inl error \<Rightarrow> Inl error
      | Inr response \<Rightarrow>
          (case json response of
             Inl error \<Rightarrow> Inl error
           | Inr data \<Rightarrow>
               if \<not> ok response then
                 (case get_property data ''detail'' of
                    Inl error \<Rightarrow> Inl error
                  | Inr detail \<Rightarrow> Inl (Error (ToString (js_or detail (JStr ''Login failed'')))))
               else Inr data))"


definition signup :: "fetch \<Rightarrow> string \<Rightarrow> string \<Rightarrow> js_error + json" where
  "signup fetch email' password =
     (case fetch (POST_auth_signup email' password) of
        Inl error \<Rightarrow> Inl error
      | Inr response \<Rightarrow>
          (case json response of
             Inl error \<Rightarrow> Inl error
           | Inr data \<Rightarrow>
               if \<not> ok response then
                 (case get_property data ''detail'' of
                    Inl error \<Rightarrow> Inl error
                  | Inr detail \<Rightarrow> Inl (Error (ToString (js_or detail (JStr ''Signup failed'')))))
               else Inr data))"

subsection \<open>The document client of the dashboard (\<^verbatim>\<open>src/unnamed/part_001\<close>)\<close>





subsection \<open>The older document client (\<^verbatim>\<open>src/lib/api.ts\<close>)\<close>

text \<open>
  \<^verbatim>\<open>
  if (!response.ok) { throw new Error('Failed to process document'); }
  return response.json();\<close>
  These three never read the body of a failed response.
\<close>

definition processDocument_lib :: "fetch \<Rightarrow> string \<Rightarrow> string \<Rightarrow> js_error + json" where
  "processDocument_lib fetch file token' =
     (case fetch (POST_documents_process file token') of
        Inl error \<Rightarrow> Inl error
      | Inr response \<Rightarrow>
          if \<not> ok response then Inl (Error ''Failed to process document'')
          else json response)"

definition getDocuments_lib :: "fetch \<Rightarrow> string \<Rightarrow> js_error + json" where
  "getDocuments_lib fetch token' =
     (case fetch (GET_documents token') of
        Inl error \<Rightarrow> Inl error
      | Inr response \<Rightarrow>
          if \<not> ok response then Inl (Error ''Failed to fetch documents'')
          else json response)"

definition searchDocuments_lib :: "fetch \<Rightarrow> string \<Rightarrow> string \<Rightarrow> js_error + json" where
  "searchDocuments_lib fetch query token' =
     (case fetch (GET_documents_search query token') of
        Inl error \<Rightarrow> Inl error
      | Inr response \<Rightarrow>
          if \<not> ok response then Inl (Error ''Failed to search documents'')
          else json response)"


text \<open>Backends for concrete runs; each answers every request alike.\<close>

definition answering :: "bool \<Rightarrow> js_error + json \<Rightarrow> fetch" where
  "answering is_ok body req = Inr \<lparr>ok = is_ok, json = body\<rparr>"




definition refusing_emptily :: fetch where
  "refusing_emptily = answering False (Inr (JObj [(''detail'', JStr [])]))"

definition refusing_with_null :: fetch where
  "refusing_with_null = answering False (Inr JNull)"

definition refusing_with_list :: fetch where
  "refusing_with_list =
     answering False
       (Inr (JObj [(''detail'',
          JArr [JObj [(''msg'', JStr ''field required'')], JObj [(''msg'', JStr ''bad email'')]])]))"

section \<open>The dashboard's field list (\<^verbatim>\<open>src/dockeeper-web/app/page.tsx\<close>)\<close>

text \<open>
  A JavaScript object with string values is the list of its properties in the order
  they were created (for \<^verbatim>\<open>fields\<close>, the order of the backend's JSON text).
  \<^verbatim>\<open>fields\<close> and \<^verbatim>\<open>pdf_url\<close> are \<open>None\<close> when absent or \<^verbatim>\<open>null\<close>.
  The field \<^verbatim>\<open>id\<close> is written \<open>document_id\<close>, \<^verbatim>\<open>fields\<close> is written
  \<open>fields'\<close> (the record package keeps \<open>fields\<close> for itself), and the
  \<^verbatim>\<open>pdf_url\<close> of a row \<open>pdf_url'\<close>.
\<close>

type_synonym js_object = "(string \<times> string) list"

record Document =
  document_id :: string
  file_name :: string
  document_type :: string
  pdf_url :: "string option"
  processed_at :: string
  fields' :: "js_object option"

record SearchResult =
  field_name :: string
  field_value :: string
  document_name :: string
  pdf_url' :: "string option"

text \<open>
  \<^verbatim>\<open>Object.entries\<close> lists the own properties in the order of the language
  (ECMAScript, OrdinaryOwnPropertyKeys): first the keys that are array indices, in
  ascending numeric order, then the other string keys in the order they were created.
  An array index is the canonical decimal writing of an integer from 0 to
  \<open>2^32 - 2\<close>: digits only, no leading zero.  On \<^verbatim>\<open>undefined\<close> or \<^verbatim>\<open>null\<close> it
  throws a TypeError.
\<close>

definition is_digit :: "char \<Rightarrow> bool" where
  "is_digit c \<longleftrightarrow> c \<in> set ''0123456789''"

definition digits_value :: "string \<Rightarrow> nat" where
  "digits_value k = foldl (\<lambda>n c. 10 * n + (of_char c - 48)) 0 k"

definition is_array_index :: "string \<Rightarrow> bool" where
  "is_array_index k \<longleftrightarrow>
     k \<noteq> [] \<and> list_all is_digit k \<and> (k = ''0'' \<or> hd k \<noteq> CHR ''0'')
     \<and> digits_value k < 4294967295"

definition own_entries :: "js_object \<Rightarrow> (string \<times> string) list" where
  "own_entries obj =
     sort_key (\<lambda>kv. digits_value (fst kv)) (filter (\<lambda>kv. is_array_index (fst kv)) obj)
     @ filter (\<lambda>kv. \<not> is_array_index (fst kv)) obj"

definition Object_entries :: "js_object option \<Rightarrow> js_error + (string \<times> string) list" where
  "Object_entries v =
     (case v of
        None \<Rightarrow> Inl (TypeError ''Cannot convert undefined or null to object'')
      | Some obj \<Rightarrow> Inr (own_entries obj))"

text \<open>\<^verbatim>\<open>doc.fields || {}\<close>: an object is truthy, \<^verbatim>\<open>undefined\<close> and \<^verbatim>\<open>null\<close> are not.\<close>

definition fields_or_empty :: "js_object option \<Rightarrow> js_object option" where
  "fields_or_empty v = (case v of None \<Rightarrow> Some [] | Some obj \<Rightarrow> Some obj)"

text \<open>\<^verbatim>\<open>Array.prototype.flatMap\<close> with a callback that may throw.\<close>

fun flatMap :: "('a \<Rightarrow> js_error + 'b list) \<Rightarrow> 'a list \<Rightarrow> js_error + 'b list" where
  "flatMap f [] = Inr []"
| "flatMap f (x # xs) =
     (case f x of
        Inl error \<Rightarrow> Inl error
      | Inr ys \<Rightarrow> (case flatMap f xs of Inl error \<Rightarrow> Inl error | Inr zs \<Rightarrow> Inr (ys @ zs)))"

text \<open>
  \<^verbatim>\<open>
  ([field_name, field_value]) => ({
    field_name, field_value, document_name: doc.file_name, pdf_url: doc.pdf_url })\<close>
\<close>

definition row :: "Document \<Rightarrow> string \<times> string \<Rightarrow> SearchResult" where
  "row doc kv =
     \<lparr>field_name = fst kv, field_value = snd kv,
      document_name = file_name doc, pdf_url' = pdf_url doc\<rparr>"

text \<open>
  \<^verbatim>\<open>
  searchTerm ? searchResults : documents.flatMap(doc =>
    Object.entries(doc.fields || {}).map(([field_name, field_value]) => ({...})))\<close>
  The search term is tested for truthiness: the empty string selects the second branch.
\<close>

definition displayed_rows ::
  "string \<Rightarrow> SearchResult list \<Rightarrow> Document list \<Rightarrow> js_error + SearchResult list" where
  "displayed_rows searchTerm searchResults documents =
     (if searchTerm \<noteq> [] then Inr searchResults
      else flatMap (\<lambda>doc.
             case Object_entries (fields_or_empty (fields' doc)) of
               Inl error \<Rightarrow> Inl error
             | Inr entries \<Rightarrow> Inr (map (row doc) entries)) documents)"



text \<open>The two documents of the specification's example, and one with a numbered field.\<close>

definition doc_a :: Document where
  "doc_a = \<lparr>document_id = ''d1'', file_name = ''a.pdf'', document_type = ''form'',
            pdf_url = None, processed_at = ''2024-01-01'',
            fields' = Some [(''Name'', ''X''), (''Email'', ''y@z.com'')]\<rparr>"

definition doc_b :: Document where
  "doc_b = \<lparr>document_id = ''d2'', file_name = ''b.pdf'', document_type = ''form'',
            pdf_url = None, processed_at = ''2024-01-02'',
            fields' = Some [(''DOB'', ''2000-01-01'')]\<rparr>"


definition doc_bare :: Document where
  "doc_bare = \<lparr>document_id = ''d4'', file_name = ''d.pdf'', document_type = ''scan'',
            pdf_url = Some ''https://files/d.pdf'', processed_at = ''2024-01-04'',
            fields' = None\<rparr>"

section \<open>The operations, case by case\<close>

lemma exec_append: "exec (xs @ ys) s = exec ys (exec xs s)"
  by (induction xs arbitrary: s) simp_all

lemma exec_handleLogout:
  "exec handleLogout s =
     \<lparr>isAuthenticated = False, token = None, user = None, localStorage = None\<rparr>"
  by (simp add: handleLogout_def)

lemma fetchUser_ok:
  "auth_getCurrentUser auth t = Inr u \<Longrightarrow>
   fetchUser auth t = ([GotCurrentUser t, SetUser (Some u)], Inr ())"
  by (simp add: fetchUser_def)

lemma fetchUser_fail:
  "auth_getCurrentUser auth t = Inl err \<Longrightarrow> fetchUser auth t = (handleLogout, Inl err)"
  by (simp add: fetchUser_def)

lemma handleLogin_cases:
  "handleLogin auth e p =
     (case auth_login auth e p of
        Inl err \<Rightarrow> (handleLogout, Inl err)
      | Inr r \<Rightarrow>
          (case auth_getCurrentUser auth (access_token r) of
             Inl err \<Rightarrow> (handleLogout @ handleLogout, Inl err)
           | Inr u \<Rightarrow>
               ([GotCurrentUser (access_token r), SetUser (Some u),
                 SetToken (Some (access_token r)), SetItem (access_token r),
                 SetIsAuthenticated True], Inr ())))"
  by (simp add: handleLogin_def fetchUser_def split: sum.splits)

lemma startup_cases:
  "startup auth s =
     (case localStorage s of
        None \<Rightarrow> []
      | Some t \<Rightarrow>
          if t = [] then []
          else (case auth_getCurrentUser auth t of
                  Inl err \<Rightarrow>
                    [SetToken (Some t), SetIsAuthenticated True] @ handleLogout @ handleLogout
                | Inr u \<Rightarrow>
                    [SetToken (Some t), SetIsAuthenticated True, GotCurrentUser t,
                     SetUser (Some u)]))"
  by (simp add: startup_def fetchUser_def split: sum.splits option.splits)


section \<open>Logout\<close>

text \<open>
  Claim C6.  From any session state, \<^verbatim>\<open>logout()\<close> yields token null, user null,
  isAuthenticated false and no storage entry, and a second call in succession yields
  the same state as the first.
\<close>

theorem logout_total_idempotent:
  "exec handleLogout s =
     \<lparr>isAuthenticated = False, token = None, user = None, localStorage = None\<rparr>
   \<and> exec handleLogout (exec handleLogout s) = exec handleLogout s"
  by (simp add: exec_handleLogout)

section \<open>Login\<close>

text \<open>
  Claim C3.  If the login call succeeds and the \<^verbatim>\<open>getCurrentUser\<close> call made on the
  returned token fails, with whatever error, then \<^verbatim>\<open>login\<close> rejects with that same
  error and the session state afterwards is exactly the unauthenticated one: token
  null, user null, isAuthenticated false, no storage entry, whatever the state before.
\<close>

theorem login_verification_failure_atomic:
  assumes "auth_login auth e p = Inr r"
    and "auth_getCurrentUser auth (access_token r) = Inl err"
  shows "snd (handleLogin auth e p) = Inl err
       \<and> exec (fst (handleLogin auth e p)) s =
           \<lparr>isAuthenticated = False, token = None, user = None, localStorage = None\<rparr>
       \<and> Unauthenticated (exec (fst (handleLogin auth e p)) s)"
  using assms by (simp add: handleLogin_cases exec_append exec_handleLogout Unauthenticated_def)

theorem login_verification_failure_atomic_witness:
  "auth_login expired ''a@b.c'' ''pw'' = Inr \<lparr>user_id = ''u1'', access_token = ''tok''\<rparr>
   \<and> auth_getCurrentUser expired ''tok'' = Inl (Error ''Invalid token'')
   \<and> snd (handleLogin expired ''a@b.c'' ''pw'') = Inl (Error ''Invalid token'')
   \<and> Unauthenticated (exec (fst (handleLogin expired ''a@b.c'' ''pw''))
        \<lparr>isAuthenticated = True, token = Some ''old'',
         user = Some \<lparr>id' = ''u0'', email = ''o@b.c''\<rparr>, localStorage = Some ''old''\<rparr>)"
proof -
  have l: "auth_login expired ''a@b.c'' ''pw'' = Inr \<lparr>user_id = ''u1'', access_token = ''tok''\<rparr>"
    by (simp add: expired_def accepting_def)
  have g: "auth_getCurrentUser expired (access_token \<lparr>user_id = ''u1'', access_token = ''tok''\<rparr>)
           = Inl (Error ''Invalid token'')"
    by (simp add: expired_def)
  from login_verification_failure_atomic [OF l g,
      of "\<lparr>isAuthenticated = True, token = Some ''old'',
          user = Some \<lparr>id' = ''u0'', email = ''o@b.c''\<rparr>, localStorage = Some ''old''\<rparr>"]
    l g
  show ?thesis by (simp add: Unauthenticated_def)
qed

text \<open>
  Claim C5.  If the login call succeeds and \<^verbatim>\<open>getCurrentUser\<close> on the returned token
  succeeds, then \<^verbatim>\<open>login\<close> resolves and the session is authenticated: the flag is
  set, the token is the returned access token (also in storage), and the user is the
  id and email of the record \<^verbatim>\<open>getCurrentUser\<close> returned.
\<close>

theorem login_success_authenticated:
  assumes "auth_login auth e p = Inr r"
    and "auth_getCurrentUser auth (access_token r) = Inr u"
  shows "snd (handleLogin auth e p) = Inr ()
       \<and> exec (fst (handleLogin auth e p)) s =
           \<lparr>isAuthenticated = True, token = Some (access_token r),
            user = Some \<lparr>id' = id' u, email = email u\<rparr>,
            localStorage = Some (access_token r)\<rparr>"
  using assms by (simp add: handleLogin_cases)

theorem login_success_authenticated_witness:
  "auth_login accepting ''a@b.c'' ''pw'' = Inr \<lparr>user_id = ''u1'', access_token = ''tok''\<rparr>
   \<and> auth_getCurrentUser accepting ''tok'' = Inr \<lparr>id' = ''u1'', email = ''a@b.c''\<rparr>
   \<and> snd (handleLogin accepting ''a@b.c'' ''pw'') = Inr ()
   \<and> exec (fst (handleLogin accepting ''a@b.c'' ''pw'')) (mount None) =
        \<lparr>isAuthenticated = True, token = Some ''tok'',
         user = Some \<lparr>id' = ''u1'', email = ''a@b.c''\<rparr>, localStorage = Some ''tok''\<rparr>"
proof -
  have l: "auth_login accepting ''a@b.c'' ''pw'' = Inr \<lparr>user_id = ''u1'', access_token = ''tok''\<rparr>"
    by (simp add: accepting_def)
  have g: "auth_getCurrentUser accepting (access_token \<lparr>user_id = ''u1'', access_token = ''tok''\<rparr>)
           = Inr \<lparr>id' = ''u1'', email = ''a@b.c''\<rparr>"
    by (simp add: accepting_def)
  from login_success_authenticated [OF l g, of "mount None"] l g show ?thesis by simp
qed

section \<open>Signup\<close>

text \<open>
  Claim C8.  \<^verbatim>\<open>signup\<close> calls the backend signup first.  If that call fails, the
  error goes to the caller and nothing else happens.  If it succeeds, \<^verbatim>\<open>signup\<close> is
  the whole login sequence with the same credentials: when the login call and the
  verification of the returned token both succeed, it performs exactly the events
  verify, set user, set token, store token, set authenticated, and ends authenticated
  with that token and user from any state; when the login call fails, or the
  verification fails, the error goes to the caller and the state is the cleared one.
  Whenever \<^verbatim>\<open>signup\<close> fails, none of its events commits anything (no token, no
  user, no authenticated flag, no storage write), and the state afterwards is the state
  before or the unauthenticated one.
\<close>

theorem signup_composition:
  "(auth_signup auth e p = Inl err \<longrightarrow> handleSignup auth e p = ([], Inl err))
   \<and> (auth_signup auth e p = Inr m \<longrightarrow> handleSignup auth e p = handleLogin auth e p)
   \<and> (auth_signup auth e p = Inr m \<and> auth_login auth e p = Inr r
        \<and> auth_getCurrentUser auth (access_token r) = Inr u \<longrightarrow>
        handleSignup auth e p =
          ([GotCurrentUser (access_token r),
            SetUser (Some \<lparr>id' = id' u, email = email u\<rparr>),
            SetToken (Some (access_token r)),
            SetItem (access_token r),
            SetIsAuthenticated True], Inr ())
        \<and> exec (fst (handleSignup auth e p)) s =
            \<lparr>isAuthenticated = True, token = Some (access_token r),
             user = Some \<lparr>id' = id' u, email = email u\<rparr>,
             localStorage = Some (access_token r)\<rparr>)
   \<and> (auth_signup auth e p = Inr m \<and> auth_login auth e p = Inl err \<longrightarrow>
        snd (handleSignup auth e p) = Inl err
        \<and> exec (fst (handleSignup auth e p)) s =
            \<lparr>isAuthenticated = False, token = None, user = None, localStorage = None\<rparr>)
   \<and> (auth_signup auth e p = Inr m \<and> auth_login auth e p = Inr r
        \<and> auth_getCurrentUser auth (access_token r) = Inl err \<longrightarrow>
        snd (handleSignup auth e p) = Inl err
        \<and> exec (fst (handleSignup auth e p)) s =
            \<lparr>isAuthenticated = False, token = None, user = None, localStorage = None\<rparr>)
   \<and> (snd (handleSignup auth e p) = Inl err \<longrightarrow>
        list_all (\<lambda>ev. \<not> commits ev) (fst (handleSignup auth e p))
        \<and> (exec (fst (handleSignup auth e p)) s = s
           \<or> Unauthenticated (exec (fst (handleSignup auth e p)) s)))"
  by (auto simp: handleSignup_def handleLogin_cases handleLogout_def Unauthenticated_def
      exec_append split: sum.splits)

theorem signup_composition_witness:
  "auth_signup registered ''a@b.c'' ''pw'' = Inr ''created''
   \<and> auth_login registered ''a@b.c'' ''pw'' = Inr \<lparr>user_id = ''u1'', access_token = ''tok''\<rparr>
   \<and> auth_getCurrentUser registered ''tok'' = Inr \<lparr>id' = ''u1'', email = ''a@b.c''\<rparr>
   \<and> snd (handleSignup registered ''a@b.c'' ''pw'') = Inr ()
   \<and> exec (fst (handleSignup registered ''a@b.c'' ''pw'')) earlier_session =
        \<lparr>isAuthenticated = True, token = Some ''tok'',
         user = Some \<lparr>id' = ''u1'', email = ''a@b.c''\<rparr>, localStorage = Some ''tok''\<rparr>
   \<and> auth_login registered ''x@b.c'' ''pw'' = Inl (Error ''Invalid credentials'')
   \<and> snd (handleSignup registered ''x@b.c'' ''pw'') = Inl (Error ''Invalid credentials'')
   \<and> Unauthenticated (exec (fst (handleSignup registered ''x@b.c'' ''pw'')) earlier_session)
   \<and> auth_signup rejecting ''a@b.c'' ''pw'' = Inl (Error ''Email taken'')
   \<and> handleSignup rejecting ''a@b.c'' ''pw'' = ([], Inl (Error ''Email taken''))
   \<and> exec (fst (handleSignup rejecting ''a@b.c'' ''pw'')) earlier_session = earlier_session
   \<and> auth_getCurrentUser expired ''tok'' = Inl (Error ''Invalid token'')
   \<and> snd (handleSignup expired ''a@b.c'' ''pw'') = Inl (Error ''Invalid token'')
   \<and> list_all (\<lambda>ev. \<not> commits ev) (fst (handleSignup expired ''a@b.c'' ''pw''))
   \<and> Unauthenticated (exec (fst (handleSignup expired ''a@b.c'' ''pw'')) earlier_session)"
proof -
  have a: "auth_signup registered ''a@b.c'' ''pw'' = Inr ''created''"
    "auth_login registered ''a@b.c'' ''pw'' = Inr \<lparr>user_id = ''u1'', access_token = ''tok''\<rparr>"
    "auth_getCurrentUser registered ''tok'' = Inr \<lparr>id' = ''u1'', email = ''a@b.c''\<rparr>"
    "auth_signup registered ''x@b.c'' ''pw'' = Inr ''created''"
    "auth_login registered ''x@b.c'' ''pw'' = Inl (Error ''Invalid credentials'')"
    by (simp_all add: registered_def)
  have b: "auth_signup rejecting ''a@b.c'' ''pw'' = Inl (Error ''Email taken'')"
    by (simp add: rejecting_def)
  have c: "auth_signup expired ''a@b.c'' ''pw'' = Inr ''created''"
    "auth_login expired ''a@b.c'' ''pw'' = Inr \<lparr>user_id = ''u1'', access_token = ''tok''\<rparr>"
    "auth_getCurrentUser expired ''tok'' = Inl (Error ''Invalid token'')"
    by (simp_all add: expired_def accepting_def)
  from signup_composition [of registered "''a@b.c''" "''pw''" _ "''created''"
      "\<lparr>user_id = ''u1'', access_token = ''tok''\<rparr>" "\<lparr>id' = ''u1'', email = ''a@b.c''\<rparr>"
      earlier_session]
    signup_composition [of registered "''x@b.c''" "''pw''" "Error ''Invalid credentials''"
      "''created''" _ _ earlier_session]
    signup_composition [of rejecting "''a@b.c''" "''pw''" "Error ''Email taken''" _ _ _
      earlier_session]
    signup_composition [of expired "''a@b.c''" "''pw''" "Error ''Invalid token''" "''created''"
      "\<lparr>user_id = ''u1'', access_token = ''tok''\<rparr>" _ earlier_session]
    a b c
  show ?thesis
    by (simp add: Unauthenticated_def earlier_session_def handleSignup_def handleLogin_cases
        handleLogout_def registered_def rejecting_def expired_def accepting_def)
qed

section \<open>Startup hydration\<close>

text \<open>
  Claim C9, amended.  When the storage entry is a non-empty token and
  \<^verbatim>\<open>getCurrentUser\<close> succeeds on it, the effect run on mount ends authenticated,
  with that token and the returned user, and the entry kept, without any login call.
  When it is a non-empty token and \<^verbatim>\<open>getCurrentUser\<close> fails, it ends
  unauthenticated with the entry removed.  When there is no entry, or the entry is the
  empty string, nothing happens: the session stays as created and the storage as found.
\<close>

theorem hydration_end_states:
  "(t \<noteq> [] \<and> auth_getCurrentUser auth t = Inr u \<longrightarrow>
      exec (startup auth (mount (Some t))) (mount (Some t)) =
        \<lparr>isAuthenticated = True, token = Some t, user = Some u, localStorage = Some t\<rparr>)
   \<and> (t \<noteq> [] \<and> auth_getCurrentUser auth t = Inl err \<longrightarrow>
      Unauthenticated (exec (startup auth (mount (Some t))) (mount (Some t))))
   \<and> (stored = None \<or> stored = Some [] \<longrightarrow>
      startup auth (mount stored) = []
      \<and> exec (startup auth (mount stored)) (mount stored) = mount stored)"
  by (auto simp: startup_cases mount_def handleLogout_def Unauthenticated_def)

theorem hydration_end_states_witness:
  "''tok'' \<noteq> [] \<and> auth_getCurrentUser accepting ''tok'' = Inr \<lparr>id' = ''u1'', email = ''a@b.c''\<rparr>
   \<and> exec (startup accepting (mount (Some ''tok''))) (mount (Some ''tok'')) =
        \<lparr>isAuthenticated = True, token = Some ''tok'',
         user = Some \<lparr>id' = ''u1'', email = ''a@b.c''\<rparr>, localStorage = Some ''tok''\<rparr>
   \<and> auth_getCurrentUser rejecting ''tok'' = Inl (Error ''Invalid token'')
   \<and> Unauthenticated (exec (startup rejecting (mount (Some ''tok''))) (mount (Some ''tok'')))
   \<and> exec (startup accepting (mount None)) (mount None) = mount None"
proof -
  have a: "auth_getCurrentUser accepting ''tok'' = Inr \<lparr>id' = ''u1'', email = ''a@b.c''\<rparr>"
    by (simp add: accepting_def)
  have r: "auth_getCurrentUser rejecting ''tok'' = Inl (Error ''Invalid token'')"
    by (simp add: rejecting_def)
  from hydration_end_states [of "''tok''" accepting "\<lparr>id' = ''u1'', email = ''a@b.c''\<rparr>" _ None]
    hydration_end_states [of "''tok''" rejecting _ "Error ''Invalid token''" None]
    a r
  show ?thesis by simp
qed

text \<open>
  The claim as it was written fails on an entry that is the empty string: the backend
  here accepts that token (as it accepts every token), and the session is not
  authenticated after the effect; nothing was done at all.
\<close>

theorem empty_stored_token_not_hydrated:
  "auth_getCurrentUser accepting [] = Inr \<lparr>id' = ''u1'', email = ''a@b.c''\<rparr>
   \<and> startup accepting (mount (Some [])) = []
   \<and> \<not> isAuthenticated (exec (startup accepting (mount (Some []))) (mount (Some [])))
   \<and> localStorage (exec (startup rejecting (mount (Some []))) (mount (Some []))) = Some []"
  by (simp add: startup_cases mount_def accepting_def)

section \<open>The session invariant\<close>

lemma settled_invariant: "settled c \<Longrightarrow> session_invariant c"
  by (auto simp: settled_def session_invariant_def)

lemma run_Nil: "run [] c = c"
  by (cases c) simp

lemma run_append: "run (xs @ ys) c = run ys (run xs c)"
  by (cases c) (simp add: exec_append)

lemma configs_append:
  "set (configs (xs @ ys) c) = set (configs xs c) \<union> set (configs ys (run xs c))"
proof (induction xs arbitrary: c)
  case Nil
  then show ?case by (cases c; cases ys) auto
next
  case (Cons x xs)
  then show ?case by (cases c) auto
qed

lemma settled_hydrated: "settled (hydrated auth stored)"
proof (cases stored)
  case None
  then show ?thesis
    by (simp add: hydrated_def startup_cases mount_def settled_def)
next
  case (Some t)
  show ?thesis
  proof (cases "auth_getCurrentUser auth t")
    case (Inl err)
    with Some show ?thesis
      by (simp add: hydrated_def startup_cases mount_def settled_def handleLogout_def)
  next
    case (Inr u)
    with Some show ?thesis
      by (simp add: hydrated_def startup_cases mount_def settled_def verified_def)
  qed
qed

lemma settled_logout: "settled (run handleLogout c)"
  by (cases c) (simp add: settled_def handleLogout_def)

lemma settled_login: "settled c \<Longrightarrow> settled (run (fst (handleLogin auth e p)) c)"
  by (cases c)
    (auto simp: settled_def handleLogin_cases handleLogout_def verified_def split: sum.splits)

lemma settled_op: "settled c \<Longrightarrow> settled (run (op_events call) c)"
proof (cases call)
  case (Pair auth op)
  assume s: "settled c"
  show ?thesis
  proof (cases op)
    case (Login e p)
    with Pair s show ?thesis by (simp add: settled_login)
  next
    case (Signup e p)
    with Pair s show ?thesis
      by (cases "auth_signup auth e p") (simp_all add: handleSignup_def settled_login run_Nil)
  next
    case Logout
    with Pair show ?thesis by (simp add: settled_logout)
  qed
qed

lemma settled_calls: "settled c \<Longrightarrow> settled (run (calls_events calls) c)"
proof (induction calls arbitrary: c)
  case Nil
  then show ?case by (cases c) (simp add: calls_events_def)
next
  case (Cons call calls)
  have "run (calls_events (call # calls)) c = run (calls_events calls) (run (op_events call) c)"
    by (simp add: calls_events_def run_append)
  with Cons settled_op show ?case by simp
qed

lemma safe_logout:
  "settled c \<Longrightarrow> c' \<in> set (configs handleLogout c) \<Longrightarrow> no_unverified_auth c'"
  by (cases c) (auto simp: settled_def handleLogout_def no_unverified_auth_def verified_def)

lemma safe_login:
  "settled c \<Longrightarrow> c' \<in> set (configs (fst (handleLogin auth e p)) c) \<Longrightarrow> no_unverified_auth c'"
  by (cases c)
    (auto simp: settled_def handleLogin_cases handleLogout_def no_unverified_auth_def
      verified_def split: sum.splits)

lemma safe_op:
  "settled c \<Longrightarrow> c' \<in> set (configs (op_events call) c) \<Longrightarrow> no_unverified_auth c'"
proof (cases call)
  case (Pair auth op)
  assume s: "settled c" and m: "c' \<in> set (configs (op_events call) c)"
  show ?thesis
  proof (cases op)
    case (Login e p)
    with Pair s m show ?thesis by (simp add: safe_login)
  next
    case (Signup e p)
    show ?thesis
    proof (cases "auth_signup auth e p")
      case (Inl err)
      with Pair Signup m have "c' = c" by (cases c) (simp add: handleSignup_def)
      with s show ?thesis by (auto simp: settled_def no_unverified_auth_def)
    next
      case (Inr msg)
      with Pair Signup m have "c' \<in> set (configs (fst (handleLogin auth e p)) c)"
        by (simp add: handleSignup_def)
      with s show ?thesis by (rule safe_login)
    qed
  next
    case Logout
    with Pair s m show ?thesis by (simp add: safe_logout)
  qed
qed

lemma safe_calls:
  "settled c \<Longrightarrow> c' \<in> set (configs (calls_events calls) c) \<Longrightarrow> no_unverified_auth c'"
proof (induction calls arbitrary: c)
  case Nil
  then show ?case by (cases c) (auto simp: calls_events_def settled_def no_unverified_auth_def)
next
  case (Cons call calls)
  have "set (configs (calls_events (call # calls)) c) =
        set (configs (op_events call) c) \<union> set (configs (calls_events calls) (run (op_events call) c))"
    by (simp add: calls_events_def configs_append)
  with Cons.prems consider "c' \<in> set (configs (op_events call) c)"
    | "c' \<in> set (configs (calls_events calls) (run (op_events call) c))" by auto
  then show ?case
  proof cases
    case 1
    with Cons.prems show ?thesis by (simp add: safe_op)
  next
    case 2
    from Cons.prems have "settled (run (op_events call) c)" by (simp add: settled_op)
    with 2 Cons.IH show ?thesis by blast
  qed
qed

text \<open>
  Claim C1, amended.  Startup hydration has run to its end, and then any calls of
  login, signup and logout, each against any auth client.  After the last of them
  (so: after hydration and after every call) the session is marked authenticated if and
  only if it holds a token and \<^verbatim>\<open>getCurrentUser\<close> has succeeded for that token in
  this lifecycle.  At every single step of those calls, a session that is marked
  authenticated and holds a token holds a verified one.
\<close>

theorem session_invariant_between_operations:
  "session_invariant (run (calls_events calls) (hydrated auth stored))
   \<and> (\<forall>c \<in> set (configs (calls_events calls) (hydrated auth stored)). no_unverified_auth c)"
  using settled_hydrated settled_calls settled_invariant safe_calls by blast

theorem session_invariant_between_operations_witness:
  "isAuthenticated (fst (run (calls_events [(accepting, Login ''a'' ''b'')]) (hydrated accepting None)))
   \<and> token (fst (run (calls_events [(accepting, Login ''a'' ''b'')]) (hydrated accepting None))) = Some ''tok''
   \<and> verified (snd (run (calls_events [(accepting, Login ''a'' ''b'')]) (hydrated accepting None))) ''tok''
   \<and> run (calls_events [(accepting, Login ''a'' ''b'')]) (hydrated accepting None)
       \<in> set (configs (calls_events [(accepting, Login ''a'' ''b'')]) (hydrated accepting None))
   \<and> no_unverified_auth (run (calls_events [(accepting, Login ''a'' ''b'')]) (hydrated accepting None))"
  using session_invariant_between_operations [of "[(accepting, Login ''a'' ''b'')]" accepting None]
  by (simp add: calls_events_def hydrated_def startup_cases mount_def handleLogin_cases
      accepting_def verified_def session_invariant_def)


text \<open>
  The claim as it was written fails inside startup hydration.  Storage holds a token
  the backend will refuse; after the second statement of the effect, with the
  \<^verbatim>\<open>getCurrentUser\<close> request not yet answered, the session is marked authenticated
  with that token, which nothing has verified.
\<close>

theorem hydration_authenticated_before_verification:
  "(exec (take 2 (startup rejecting (mount (Some ''stale'')))) (mount (Some ''stale'')),
    take 2 (startup rejecting (mount (Some ''stale''))))
     \<in> set (configs (startup rejecting (mount (Some ''stale''))) (mount (Some ''stale''), []))
   \<and> \<not> session_invariant
        (exec (take 2 (startup rejecting (mount (Some ''stale'')))) (mount (Some ''stale'')),
         take 2 (startup rejecting (mount (Some ''stale''))))
   \<and> \<not> no_unverified_auth
        (exec (take 2 (startup rejecting (mount (Some ''stale'')))) (mount (Some ''stale'')),
         take 2 (startup rejecting (mount (Some ''stale''))))"
  by (simp add: startup_cases mount_def rejecting_def handleLogout_def session_invariant_def
      no_unverified_auth_def verified_def)

section \<open>Durable storage\<close>

lemma storage_events_handleLogout: "storage_events handleLogout = [RemoveItem]"
  by (simp add: storage_events_def handleLogout_def)

lemma storage_events_append:
  "storage_events (xs @ ys) = storage_events xs @ storage_events ys"
  by (simp add: storage_events_def)

lemma storage_events_handleLogin:
  "storage_events (fst (handleLogin auth e p)) =
     (case auth_login auth e p of
        Inl err \<Rightarrow> [RemoveItem]
      | Inr r \<Rightarrow>
          (case auth_getCurrentUser auth (access_token r) of
             Inl err \<Rightarrow> [RemoveItem, RemoveItem]
           | Inr u \<Rightarrow> [SetItem (access_token r)]))"
  by (simp add: handleLogin_cases storage_events_append storage_events_handleLogout
      split: sum.splits) (simp add: storage_events_def)

text \<open>
  Claim C7, amended.  The storage events of each operation, in full.  Logout: one
  removal.  Login: one write of the returned token when the login call and the
  verification both succeed; one removal when the login call itself fails; two removals
  when the verification fails.  Signup: nothing when the signup call fails, else as
  login.  Startup: two removals when a non-empty stored token fails verification,
  nothing otherwise.
\<close>

theorem storage_frame:
  "storage_events handleLogout = [RemoveItem]
   \<and> storage_events (fst (handleLogin auth e p)) =
       (case auth_login auth e p of
          Inl err \<Rightarrow> [RemoveItem]
        | Inr r \<Rightarrow>
            (case auth_getCurrentUser auth (access_token r) of
               Inl err \<Rightarrow> [RemoveItem, RemoveItem]
             | Inr u \<Rightarrow> [SetItem (access_token r)]))
   \<and> storage_events (fst (handleSignup auth e p)) =
       (case auth_signup auth e p of
          Inl err \<Rightarrow> []
        | Inr m \<Rightarrow> storage_events (fst (handleLogin auth e p)))
   \<and> storage_events (startup auth s) =
       (case localStorage s of
          None \<Rightarrow> []
        | Some t \<Rightarrow>
            if t = [] then []
            else (case auth_getCurrentUser auth t of
                    Inl err \<Rightarrow> [RemoveItem, RemoveItem]
                  | Inr u \<Rightarrow> []))"
proof -
  have signup: "storage_events (fst (handleSignup auth e p)) =
       (case auth_signup auth e p of
          Inl err \<Rightarrow> []
        | Inr m \<Rightarrow> storage_events (fst (handleLogin auth e p)))"
    by (simp add: handleSignup_def storage_events_def split: sum.splits)
  have start: "storage_events (startup auth s) =
       (case localStorage s of
          None \<Rightarrow> []
        | Some t \<Rightarrow>
            if t = [] then []
            else (case auth_getCurrentUser auth t of
                    Inl err \<Rightarrow> [RemoveItem, RemoveItem]
                  | Inr u \<Rightarrow> []))"
    by (simp add: startup_cases storage_events_def handleLogout_def
        split: option.splits sum.splits)
  show ?thesis
    using storage_events_handleLogout storage_events_handleLogin signup start by blast
qed

text \<open>
  The claim as it was written fails on a login with wrong credentials: the login call
  fails, no verification is attempted, and the storage entry of the session that was
  there is removed all the same.
\<close>

theorem failed_login_call_clears_storage:
  "auth_login bad_credentials ''a@b.c'' ''wrong'' = Inl (Error ''Invalid credentials'')
   \<and> fst (handleLogin bad_credentials ''a@b.c'' ''wrong'') =
       [SetToken None, SetUser None, SetIsAuthenticated False, RemoveItem]
   \<and> localStorage (exec (fst (handleLogin bad_credentials ''a@b.c'' ''wrong''))
        \<lparr>isAuthenticated = True, token = Some ''tok'',
         user = Some \<lparr>id' = ''u1'', email = ''a@b.c''\<rparr>, localStorage = Some ''tok''\<rparr>) = None"
  by (simp add: handleLogin_cases bad_credentials_def accepting_def handleLogout_def)


section \<open>Errors of the API wrappers\<close>





text \<open>
  More facts about failed responses: a \<^verbatim>\<open>null\<close> body gives a TypeError, an empty
  \<^verbatim>\<open>detail\<close> string gives the fallback, a \<^verbatim>\<open>detail\<close> that is a list of objects
  gives their string conversion, and the three older wrappers give their fixed string
  whatever the body.
\<close>

lemma null_body_surfaces_type_error:
  "login refusing_with_null ''a@b.c'' ''pw'' = Inl (TypeError ''Cannot read properties of null'')"
  by (simp add: login_def refusing_with_null_def answering_def)

lemma empty_detail_gives_fallback:
  "login refusing_emptily ''a@b.c'' ''pw'' = Inl (Error ''Login failed'')"
  by (simp add: login_def refusing_emptily_def answering_def js_or_def)

lemma list_detail_is_converted:
  "login refusing_with_list ''a@b.c'' ''pw'' = Inl (Error ''[object Object],[object Object]'')"
  by (simp add: login_def refusing_with_list_def answering_def js_or_def)

lemma lib_wrappers_ignore_detail:
  assumes "\<not> ok response"
  shows "(fetch (POST_documents_process file t) = Inr response \<longrightarrow>
            processDocument_lib fetch file t = Inl (Error ''Failed to process document''))
       \<and> (fetch (GET_documents t) = Inr response \<longrightarrow>
            getDocuments_lib fetch t = Inl (Error ''Failed to fetch documents''))
       \<and> (fetch (GET_documents_search q t) = Inr response \<longrightarrow>
            searchDocuments_lib fetch q t = Inl (Error ''Failed to search documents''))"
  using assms
  by (simp add: processDocument_lib_def getDocuments_lib_def searchDocuments_lib_def)

section \<open>The flattened field list\<close>


lemma flatMap_total:
  "flatMap (\<lambda>x. Inr (g x)) xs = Inr (concat (map g xs))"
  by (induction xs) simp_all

lemma displayed_rows_empty_search:
  "displayed_rows [] searchResults documents =
     Inr (concat (map (\<lambda>doc. map (row doc)
            (own_entries (case fields' doc of None \<Rightarrow> [] | Some obj \<Rightarrow> obj))) documents))"
proof -
  have "(\<lambda>doc. case Object_entries (fields_or_empty (fields' doc)) of
               Inl error \<Rightarrow> Inl error
             | Inr entries \<Rightarrow> Inr (map (row doc) entries))
      = (\<lambda>doc. Inr (map (row doc)
            (own_entries (case fields' doc of None \<Rightarrow> [] | Some obj \<Rightarrow> obj))))"
    by (rule ext) (simp add: Object_entries_def fields_or_empty_def split: option.splits)
  then show ?thesis
    by (simp add: displayed_rows_def flatMap_total)
qed






text \<open>
  Claim C10.  A document whose \<^verbatim>\<open>fields\<close> is absent or null makes the derivation
  neither fail nor list a row for it: wherever it stands in the document list, the
  derivation returns rows, the same rows as without that document, and the same rows
  as with that document holding the empty map.
\<close>

theorem missing_fields_no_rows:
  assumes "fields' doc = None"
  shows "(\<exists>rows. displayed_rows [] searchResults (before @ doc # after) = Inr rows)
       \<and> displayed_rows [] searchResults (before @ doc # after)
           = displayed_rows [] searchResults (before @ after)
       \<and> displayed_rows [] searchResults (before @ doc # after)
           = displayed_rows [] searchResults (before @ doc\<lparr>fields' := Some []\<rparr> # after)
       \<and> displayed_rows [] searchResults [doc] = Inr []"
  using assms by (simp add: displayed_rows_empty_search own_entries_def)

theorem missing_fields_no_rows_witness:
  "fields' doc_bare = None
   \<and> displayed_rows [] [] [doc_bare] = Inr []
   \<and> displayed_rows [] [] ([doc_a] @ doc_bare # [doc_b]) = displayed_rows [] [] ([doc_a] @ [doc_b])"
proof -
  have h: "fields' doc_bare = None" by (simp add: doc_bare_def)
  from missing_fields_no_rows [OF h, of "[]" "[doc_a]" "[doc_b]"] h show ?thesis by simp
qed


end
